theory Spec2Isabelle
  imports Complex_Main "HOL-Library.Multiset"
begin

section \<open>Python values\<close>

text \<open>
  A Python \<open>str\<close> is a sequence of Unicode code points; a code point is modelled as a
  natural number and a string as the list of its code points, so that slicing and
  \<open>len\<close> count what Python counts. \<open>str\<close> turns an ASCII literal into such a list.
\<close>

type_synonym pystr = "nat list"

definition cp :: "char \<Rightarrow> nat" where
  "cp c = of_char c"

definition str :: "string \<Rightarrow> pystr" where
  "str s = map cp s"

datatype py_error = IndexError | ValueError | FileNotFoundError

text \<open>Slices \<open>xs[:k]\<close> and \<open>xs[k:]\<close>: a negative bound counts from the end and is clipped at 0.\<close>

definition slice_to :: "'a list \<Rightarrow> int \<Rightarrow> 'a list" where
  "slice_to xs k = (if 0 \<le> k then take (nat k) xs else take (nat (int (length xs) + k)) xs)"

definition slice_from :: "'a list \<Rightarrow> int \<Rightarrow> 'a list" where
  "slice_from xs k = (if 0 \<le> k then drop (nat k) xs else drop (nat (int (length xs) + k)) xs)"

text \<open>Indexing \<open>xs[k]\<close> raises IndexError out of range; on a string it yields a string of length 1.\<close>

definition index :: "'a list \<Rightarrow> int \<Rightarrow> py_error + 'a" where
  "index xs k =
     (let n = int (length xs); j = (if k < 0 then n + k else k)
      in if 0 \<le> j \<and> j < n then Inr (xs ! nat j) else Inl IndexError)"

definition str_index :: "pystr \<Rightarrow> int \<Rightarrow> py_error + pystr" where
  "str_index s k = (case index s k of Inl e \<Rightarrow> Inl e | Inr c \<Rightarrow> Inr [c])"

section \<open>enums.py\<close>

datatype Label =
    NO_PUNCTUATION | COLON | SEMICOLON | COMMA | PERIOD | HYPHEN | ELLIPSIS | QUESTION | EXCLAMATION

fun label_value :: "Label \<Rightarrow> pystr" where
  "label_value NO_PUNCTUATION = str ''B''"
| "label_value COLON = str '':''"
| "label_value SEMICOLON = str '';''"
| "label_value COMMA = str '',''"
| "label_value PERIOD = str ''.''"
| "label_value HYPHEN = str ''-''"
| "label_value ELLIPSIS = str ''...''"
| "label_value QUESTION = str ''?''"
| "label_value EXCLAMATION = str ''!''"

definition Label_members :: "Label list" where
  "Label_members =
     [NO_PUNCTUATION, COLON, SEMICOLON, COMMA, PERIOD, HYPHEN, ELLIPSIS, QUESTION, EXCLAMATION]"

definition Label_list :: "pystr list" where
  "Label_list = map label_value Label_members"



section \<open>parsers/tsv\_parser.py and parsers/parse\_tsv.py: label determination\<close>

text \<open>
  What the code reports: \<open>logger.error\<close> and \<open>logger.warning\<close> calls and prints to
  \<open>sys.stderr\<close>, each with the values it formats.
\<close>

datatype log_record =
    Error_mismatch pystr pystr
  | Stderr_ERROR pystr pystr
  | Stderr_token_counts nat nat
  | Warning_texts_differ

text \<open>
  \<open>TsvParser._determine_label\<close> of tsv\_parser.py. The result is the label and the records
  logged; \<open>expected_token[-1]\<close> can raise, so the result is a sum.
\<close>

definition determine_label :: "pystr \<Rightarrow> pystr \<Rightarrow> py_error + (pystr \<times> log_record list)" where
  "determine_label in_token expected_token =
     (if in_token = expected_token then Inr (str ''B'', [])
      else if in_token = slice_to expected_token (- 1) then
        (case str_index expected_token (- 1) of
           Inl e \<Rightarrow> Inl e
         | Inr c \<Rightarrow> Inr (c, []))
      else if in_token = slice_to expected_token (- 3)
              \<and> slice_from expected_token (- 3) = str ''...'' then Inr (str ''...'', [])
      else Inr (str ''B'', [Error_mismatch in_token expected_token]))"

text \<open>
  \<open>TsvParser._determine_label\<close> of parse\_tsv.py: the ellipsis branch returns
  \<open>expected_token[-3:]\<close> and the mismatch is printed to stderr.
\<close>

definition determine_label_parse_tsv ::
  "pystr \<Rightarrow> pystr \<Rightarrow> py_error + (pystr \<times> log_record list)" where
  "determine_label_parse_tsv in_token expected_token =
     (if in_token = expected_token then Inr (str ''B'', [])
      else if in_token = slice_to expected_token (- 1) then
        (case str_index expected_token (- 1) of
           Inl e \<Rightarrow> Inl e
         | Inr c \<Rightarrow> Inr (c, []))
      else if in_token = slice_to expected_token (- 3)
              \<and> slice_from expected_token (- 3) = str ''...''
        then Inr (slice_from expected_token (- 3), [])
      else Inr (str ''B'', [Stderr_ERROR in_token expected_token]))"

section \<open>The tabular dataset\<close>

text \<open>
  A data frame with the columns \<open>words\<close>, \<open>labels\<close>, \<open>times\<close>, \<open>sentence_id\<close> is the list
  of its rows, in row order. The type of the sentence ids is left open (pandas reads them
  as integers, the chunker writes strings).
\<close>

record 'k row =
  words :: pystr
  labels :: pystr
  times' :: pystr
  sentence_id :: 'k

section \<open>train\_ner\_punctuation.py\<close>

text \<open>
  The filter \<open>NERTrainer.load_data\<close> applies to each of the two frames it has read:
  \<open>sentences_to_delete = data[~data.labels.isin(self.labels)].sentence_id\<close>, then
  \<open>data.loc[~data.sentence_id.isin(sentences_to_delete)]\<close>, with \<open>self.labels = Label.list()\<close>.
\<close>

definition delete_sentences :: "pystr list \<Rightarrow> 'k row list \<Rightarrow> 'k row list" where
  "delete_sentences labels_list data =
     (let sentences_to_delete =
            map sentence_id (filter (\<lambda>r. labels r \<notin> set labels_list) data)
      in filter (\<lambda>r. sentence_id r \<notin> set sentences_to_delete) data)"

definition load_data :: "'k row list \<Rightarrow> 'k row list \<Rightarrow> 'k row list \<times> 'k row list" where
  "load_data train_data eval_data =
     (delete_sentences Label_list train_data, delete_sentences Label_list eval_data)"

section \<open>split\_long\_examples.py\<close>

text \<open>
  \<open>int(x)\<close> on a number truncates towards zero. The stride is a Python float; it is
  modelled as a rational and the product \<open>words_in_example * self.stride\<close> is taken
  exactly (as it is in binary floating point for the strides 1.0 and 0.5).
\<close>

definition py_int :: "rat \<Rightarrow> int" where
  "py_int x = (if 0 \<le> x then \<lfloor>x\<rfloor> else \<lceil>x\<rceil>)"

text \<open>The tokenizer is external: \<open>tokenize\<close> stands for \<open>self.tokenizer.tokenize\<close>.\<close>

record DataSplitter =
  tokenize :: "pystr \<Rightarrow> pystr list"
  max_seq_len :: int
  stride :: rat

text \<open>
  The variables of \<open>_split_long_examples\<close>. A row of \<open>splitted_data\<close> carries its chunk id
  \<open>f"{sentence_id}_{chunk_id}"\<close> as the pair of the two numbers formatted.
\<close>

type_synonym token = "pystr \<times> pystr \<times> pystr"

record 'k splitting =
  splitted_data :: "(pystr \<times> pystr \<times> pystr \<times> 'k \<times> int) list"
  words_with_labels :: "token list"
  words_in_example :: int
  tokenized_len :: int
  token_lens :: "int list"
  chunk_id :: int

text \<open>\<open>splitted_data.extend([(w, l, s, f"{sentence_id}_{chunk_id}") for ...])\<close>\<close>

definition extend_splitted_data :: "'k \<Rightarrow> 'k splitting \<Rightarrow> 'k splitting" where
  "extend_splitted_data sid st =
     st\<lparr>splitted_data := splitted_data st
          @ map (\<lambda>(w, l, s). (w, l, s, sid, chunk_id st)) (words_with_labels st)\<rparr>"

text \<open>The body of the \<open>if\<close> inside the loop: flush the window and keep its tail.\<close>

definition flush_window :: "DataSplitter \<Rightarrow> 'k \<Rightarrow> 'k splitting \<Rightarrow> 'k splitting" where
  "flush_window self sid st =
     (let st1 = extend_splitted_data sid st;
          offset = py_int (of_int (words_in_example st1) * stride self)
      in st1\<lparr>chunk_id := chunk_id st1 + 1,
             words_with_labels := slice_from (words_with_labels st1) offset,
             tokenized_len := tokenized_len st1 - sum_list (slice_to (token_lens st1) offset),
             token_lens := slice_from (token_lens st1) offset,
             words_in_example := words_in_example st1 - offset\<rparr>)"

text \<open>One round of the loop over the words of a sentence.\<close>

definition split_step :: "DataSplitter \<Rightarrow> 'k \<Rightarrow> 'k splitting \<Rightarrow> token \<Rightarrow> 'k splitting" where
  "split_step self sid st t =
     (let tokenized_word = tokenize self (fst t);
          n = int (length tokenized_word);
          st1 = (if tokenized_len st + n \<ge> max_seq_len self - 1
                 then flush_window self sid st else st)
      in st1\<lparr>token_lens := token_lens st1 @ [n],
             tokenized_len := tokenized_len st1 + n,
             words_with_labels := words_with_labels st1 @ [t],
             words_in_example := words_in_example st1 + 1\<rparr>)"

text \<open>The body of the loop over the sentences: one sentence, with the trailing flush.\<close>

definition split_example ::
  "DataSplitter \<Rightarrow> (pystr \<times> pystr \<times> pystr \<times> 'k \<times> int) list \<Rightarrow> 'k \<Rightarrow> token list
     \<Rightarrow> (pystr \<times> pystr \<times> pystr \<times> 'k \<times> int) list" where
  "split_example self out sid example =
     (let st0 = \<lparr>splitted_data = out, words_with_labels = [], words_in_example = 0,
                 tokenized_len = 0, token_lens = [], chunk_id = 0\<rparr>;
          st = foldl (split_step self sid) st0 example
      in splitted_data (if tokenized_len st \<ge> 0 then extend_splitted_data sid st else st))"

text \<open>
  \<open>data.groupby("sentence_id")\<close> yields the groups by ascending key, each with its rows
  in row order.
\<close>

definition groupby_sentence_id :: "('k::linorder) row list \<Rightarrow> ('k \<times> 'k row list) list" where
  "groupby_sentence_id data =
     map (\<lambda>k. (k, filter (\<lambda>r. sentence_id r = k) data))
       (sorted_list_of_set (set (map sentence_id data)))"

definition row_token :: "'k row \<Rightarrow> token" where
  "row_token r = (words r, labels r, times' r)"

definition split_long_examples ::
  "DataSplitter \<Rightarrow> ('k::linorder) row list \<Rightarrow> (pystr \<times> pystr \<times> pystr \<times> 'k \<times> int) list" where
  "split_long_examples self data =
     foldl (\<lambda>out (sid, example). split_example self out sid (map row_token example))
       [] (groupby_sentence_id data)"

text \<open>The rows of chunk \<open>c\<close> of sentence \<open>k\<close> in the output, without their chunk id.\<close>

definition chunk :: "(pystr \<times> pystr \<times> pystr \<times> 'k \<times> int) list \<Rightarrow> 'k \<Rightarrow> int \<Rightarrow> token list" where
  "chunk out k c = map (\<lambda>(w, l, s, i). (w, l, s)) (filter (\<lambda>(w, l, s, i). i = (k, c)) out)"

text \<open>The rows of sentence \<open>k\<close> in the output, without their chunk id.\<close>

definition chunks_of :: "(pystr \<times> pystr \<times> pystr \<times> 'k \<times> int) list \<Rightarrow> 'k \<Rightarrow> token list" where
  "chunks_of out k = map (\<lambda>(w, l, s, i). (w, l, s)) (filter (\<lambda>(w, l, s, i). fst i = k) out)"

section \<open>Auxiliary notions for the proofs\<close>

text \<open>The state \<open>st\<close> with the rows \<open>out\<close> written before it started.\<close>

definition onto :: "(pystr \<times> pystr \<times> pystr \<times> 'k \<times> int) list \<Rightarrow> 'k splitting \<Rightarrow> 'k splitting" where
  "onto out st = st\<lparr>splitted_data := out @ splitted_data st\<rparr>"

text \<open>The sentence id of an output row; an output row without and a token with a chunk id.\<close>

definition sid_of :: "(pystr \<times> pystr \<times> pystr \<times> 'k \<times> int) \<Rightarrow> 'k" where
  "sid_of x = fst (snd (snd (snd x)))"

text \<open>The bookkeeping of the window: the counters agree with the lists.\<close>

definition window_ok :: "'k splitting \<Rightarrow> bool" where
  "window_ok st \<longleftrightarrow>
     words_in_example st = int (length (words_with_labels st))
     \<and> length (token_lens st) = length (words_with_labels st)
     \<and> tokenized_len st = sum_list (token_lens st)
     \<and> list_all (\<lambda>n. 0 \<le> n) (token_lens st)
     \<and> 0 \<le> chunk_id st"

text \<open>
  An example: a tokenizer that makes one subword of each character, the budget 5 and
  disjoint chunks; a frame of two sentences, one over and one under the budget.
\<close>

definition example_splitter :: DataSplitter where
  "example_splitter = \<lparr>tokenize = (\<lambda>w. map (\<lambda>c. [c]) w), max_seq_len = 5, stride = 1\<rparr>"

definition example_frame :: "int row list" where
  "example_frame =
     [\<lparr>words = str ''ab'', labels = str ''B'', times' = str ''0'', sentence_id = 7\<rparr>,
      \<lparr>words = str ''x'', labels = str ''B'', times' = str ''0'', sentence_id = 3\<rparr>,
      \<lparr>words = str ''cd'', labels = str '','', times' = str ''0'', sentence_id = 7\<rparr>,
      \<lparr>words = str ''e'', labels = str ''.'', times' = str ''0'', sentence_id = 7\<rparr>]"

definition untag :: "(pystr \<times> pystr \<times> pystr \<times> 'k \<times> int) \<Rightarrow> token" where
  "untag x = (fst x, fst (snd x), fst (snd (snd x)))"

definition tag :: "'k \<Rightarrow> int \<Rightarrow> token \<Rightarrow> (pystr \<times> pystr \<times> pystr \<times> 'k \<times> int)" where
  "tag k c t = (fst t, fst (snd t), snd (snd t), k, c)"






section \<open>converters/pandas\_converter.py\<close>

text \<open>
  \<open>Series.unique()\<close> keeps the first occurrence of each value, in order. \<open>round\<close> on a
  float rounds to the nearest integer and a tie to the even one. The ratios are Python
  floats, modelled as rationals.
\<close>

definition unique :: "'a list \<Rightarrow> 'a list" where
  "unique xs = rev (remdups (rev xs))"

definition py_round :: "rat \<Rightarrow> int" where
  "py_round x =
     (let f = \<lfloor>x\<rfloor>; d = x - of_int f
      in if d < 1 / 2 then f else if 1 / 2 < d then f + 1 else if even f then f else f + 1)"


definition TRAIN_TO_TEST_DEV_RATIO :: rat where
  "TRAIN_TO_TEST_DEV_RATIO = 8 / 10"

definition DEV_TO_TEST_RATIO :: rat where
  "DEV_TO_TEST_RATIO = 5 / 10"

text \<open>
  Python's module \<open>random\<close> is external. Its generator state has the type \<open>'g\<close>;
  \<open>random.seed\<close> and \<open>random.sample\<close> are parameters: \<open>sample g population k\<close> is the list
  \<open>random.sample(population, k)\<close> returns in state \<open>g\<close>, and the state it leaves. The
  \<open>ValueError\<close> that \<open>random.sample\<close> raises for a negative or too large \<open>k\<close> is part of
  the model.
\<close>

type_synonym ('g, 'a) sampler = "'g \<Rightarrow> 'a list \<Rightarrow> nat \<Rightarrow> 'a list \<times> 'g"

definition split_dataframe ::
  "('g, 'k) sampler \<Rightarrow> 'g \<Rightarrow> 'k row list \<Rightarrow> rat
     \<Rightarrow> py_error + (('k row list \<times> 'k row list) \<times> 'g)" where
  "split_dataframe sample g data train_prop =
     (let sentence_ids = unique (map sentence_id data);
          train_count = py_round (of_nat (length sentence_ids) * train_prop)
      in if train_count < 0 \<or> int (length sentence_ids) < train_count then Inl ValueError
         else
           (let (train_ids, g') = sample g sentence_ids (nat train_count);
                train_data = filter (\<lambda>r. sentence_id r \<in> set train_ids) data;
                test_data = filter (\<lambda>r. sentence_id r \<notin> set train_ids) data
            in Inr ((train_data, test_data), g')))"

text \<open>
  \<open>DataFrameSplitter.run\<close> with \<open>split_to_files\<close> set, on the frame \<open>_process_file\<close> has
  read, in the generator state \<open>g\<close>; the constructor leaves the state \<open>seed SEED\<close>. The result
  is the three frames saved as train, dev and test.
\<close>

definition run ::
  "('g, 'k) sampler \<Rightarrow> 'g \<Rightarrow> 'k row list
     \<Rightarrow> py_error + (('k row list \<times> 'k row list \<times> 'k row list) \<times> 'g)" where
  "run sample g df =
     (case split_dataframe sample g df TRAIN_TO_TEST_DEV_RATIO of
        Inl e \<Rightarrow> Inl e
      | Inr ((train_data, dev_test_data), g1) \<Rightarrow>
          (case split_dataframe sample g1 dev_test_data DEV_TO_TEST_RATIO of
             Inl e \<Rightarrow> Inl e
           | Inr ((dev_data, test_data), g2) \<Rightarrow> Inr ((train_data, dev_data, test_data), g2)))"


text \<open>
  An example: a sampler that draws the first \<open>k\<close> elements, and a frame of five sentences.
\<close>

definition first_sampler :: "(nat, 'a) sampler" where
  "first_sampler g population k = (take k population, Suc g)"

definition five_sentences :: "int row list" where
  "five_sentences =
     map (\<lambda>i. \<lparr>words = [97 + nat i], labels = str ''B'', times' = str ''0'', sentence_id = i\<rparr>)
       [0, 0, 1, 2, 3, 4]"


section \<open>Python strings: strip and split\<close>

text \<open>
  The code points \<open>str.strip()\<close> removes (those with \<open>str.isspace\<close>), and the separators
  the code splits on.
\<close>

definition whitespace :: "nat list" where
  "whitespace = [9, 10, 11, 12, 13, 28, 29, 30, 31, 32, 133, 160, 5760]
     @ [8192 ..< 8203] @ [8232, 8233, 8239, 8287, 12288]"

definition isspace :: "nat \<Rightarrow> bool" where
  "isspace c \<longleftrightarrow> c \<in> set whitespace"

definition strip :: "pystr \<Rightarrow> pystr" where
  "strip s = rev (dropWhile isspace (rev (dropWhile isspace s)))"

definition TAB :: nat where
  "TAB = 9"

definition SPACE :: nat where
  "SPACE = 32"

text \<open>\<open>s.split(sep)\<close> for a separator of one character: the empty pieces are kept.\<close>

fun split_on :: "nat \<Rightarrow> pystr \<Rightarrow> pystr list" where
  "split_on sep [] = [[]]"
| "split_on sep (c # cs) =
     (if c = sep then [] # split_on sep cs
      else (case split_on sep cs of
              [] \<Rightarrow> [[c]]
            | w # ws \<Rightarrow> (c # w) # ws))"

section \<open>converters/json\_converter.py: document routing\<close>

text \<open>
  \<open>_parse_wikipunct_text_ids\<close> on the lines of a manifest: \<open>name, _ = line.split("\t")\<close>
  raises ValueError unless the stripped line has exactly two fields.
\<close>

fun parse_wikipunct_text_ids :: "pystr list \<Rightarrow> py_error + pystr list" where
  "parse_wikipunct_text_ids [] = Inr []"
| "parse_wikipunct_text_ids (line # file) =
     (case split_on TAB (strip line) of
        [name, _] \<Rightarrow>
          (case parse_wikipunct_text_ids file of
             Inl e \<Rightarrow> Inl e
           | Inr names \<Rightarrow> Inr (name # names))
      | _ \<Rightarrow> Inl ValueError)"

text \<open>
  A path \<open>parent/stem.json\<close> that \<open>path.glob("*.json")\<close> yields; \<open>data_paths\<close> is given as
  the list of what each directory's glob yields, in the order it yields it.
\<close>

record json_path =
  parent :: pystr
  stem :: pystr

definition sort_paths :: "json_path list \<Rightarrow> pystr list \<Rightarrow> json_path list" where
  "sort_paths paths wikipunct_text_ids =
     concat (map (\<lambda>wikipunct_text_id.
        case find (\<lambda>path. wikipunct_text_id = stem path) paths of
          None \<Rightarrow> []
        | Some path \<Rightarrow> [path]) wikipunct_text_ids)"

text \<open>One round of the loop over the candidate paths.\<close>

definition route ::
  "pystr list \<Rightarrow> pystr list \<Rightarrow> json_path list \<times> json_path list \<times> json_path list
     \<Rightarrow> json_path \<Rightarrow> json_path list \<times> json_path list \<times> json_path list" where
  "route train_names test_names acc json_path =
     (case acc of (train_paths, test_paths, rest_paths) \<Rightarrow>
        (let wikipunct_text_id = stem json_path
         in if wikipunct_text_id \<in> set train_names
              then (train_paths @ [json_path], test_paths, rest_paths)
            else if wikipunct_text_id \<in> set test_names
              then (train_paths, test_paths @ [json_path], rest_paths)
            else (train_paths, test_paths, rest_paths @ [json_path])))"

text \<open>
  \<open>_get_json_paths\<close>. \<open>random.seed\<close> and \<open>random.shuffle\<close> are parameters: \<open>shuffle g xs\<close>
  is the list \<open>random.shuffle\<close> leaves in state \<open>g\<close>.
\<close>

definition get_json_paths ::
  "(int \<Rightarrow> 'g) \<Rightarrow> ('g \<Rightarrow> json_path list \<Rightarrow> json_path list) \<Rightarrow> pystr list \<Rightarrow> pystr list
     \<Rightarrow> json_path list list
     \<Rightarrow> py_error + (json_path list \<times> json_path list \<times> json_path list)" where
  "get_json_paths seed shuffle train_file test_file data_paths =
     (case parse_wikipunct_text_ids train_file of
        Inl e \<Rightarrow> Inl e
      | Inr train_names \<Rightarrow>
     (case parse_wikipunct_text_ids test_file of
        Inl e \<Rightarrow> Inl e
      | Inr test_names \<Rightarrow>
     (case foldl (route train_names test_names) ([], [], []) (concat data_paths) of
        (train_paths, test_paths, rest_paths) \<Rightarrow>
          Inr (sort_paths train_paths train_names,
               sort_paths test_paths test_names,
               shuffle (seed 0) rest_paths))))"

text \<open>
  An example: two manifests that both list \<open>a\<close>, and two directories with four documents.
\<close>

definition train_manifest :: "pystr list" where
  "train_manifest = [str ''b'' @ [TAB] @ str ''tekst b'' @ [10], str ''a'' @ [TAB] @ str ''tekst a'' @ [10]]"

definition test_manifest :: "pystr list" where
  "test_manifest = [str ''c'' @ [TAB] @ str ''tekst c'' @ [10], str ''a'' @ [TAB] @ str ''tekst a'' @ [10]]"

definition two_directories :: "json_path list list" where
  "two_directories =
     [[\<lparr>parent = str ''wikinews'', stem = str ''a''\<rparr>, \<lparr>parent = str ''wikinews'', stem = str ''c''\<rparr>],
      [\<lparr>parent = str ''wikitalks'', stem = str ''d''\<rparr>, \<lparr>parent = str ''wikitalks'', stem = str ''b''\<rparr>]]"

text \<open>What the proofs take from \<open>random.shuffle\<close>: it permutes the list.\<close>

definition shuffle_ok :: "('g \<Rightarrow> 'a list \<Rightarrow> 'a list) \<Rightarrow> bool" where
  "shuffle_ok shuffle \<longleftrightarrow> (\<forall>g xs. mset (shuffle g xs) = mset xs)"

section \<open>Python strings: case and regular expressions\<close>

text \<open>
  The Unicode character database is external. \<open>lower_map c\<close> is what \<open>str.lower()\<close> makes
  of the code point \<open>c\<close> (one or more code points), and \<open>word_char c\<close> says whether \<open>\w\<close>
  matches \<open>c\<close>. \<open>str.lower()\<close> is modelled code point by code point (Python's one
  context-dependent rule, for the Greek final sigma, is left out).
\<close>

record unicode =
  lower_map :: "nat \<Rightarrow> pystr"
  word_char :: "nat \<Rightarrow> bool"

definition lower :: "unicode \<Rightarrow> pystr \<Rightarrow> pystr" where
  "lower U s = concat (map (lower_map U) s)"

text \<open>
  The database on ASCII: the letters A to Z have lower case, and \<open>\w\<close> matches letters,
  digits and the underscore. Used for the examples; it is also right on the code point
  U+2026 (horizontal ellipsis), which has no case and is no word character.
\<close>

definition ascii :: unicode where
  "ascii = \<lparr>lower_map = (\<lambda>c. if 65 \<le> c \<and> c \<le> 90 then [c + 32] else [c]),
            word_char = (\<lambda>c. (48 \<le> c \<and> c \<le> 57) \<or> (65 \<le> c \<and> c \<le> 90)
                             \<or> (97 \<le> c \<and> c \<le> 122) \<or> c = 95)\<rparr>"

definition ELLIPSIS_CHAR :: nat where
  "ELLIPSIS_CHAR = 8230"

definition DOT :: nat where
  "DOT = 46"

text \<open>\<open>re.match(r'^[^\w"%]+$', word)\<close>: the word is not empty and has no word character, no
  \<open>"\<close> and no \<open>%\<close> (a newline is in the class, so \<open>$\<close> adds nothing).\<close>

definition non_alphanumeric :: "unicode \<Rightarrow> pystr \<Rightarrow> bool" where
  "non_alphanumeric U w \<longleftrightarrow>
     w \<noteq> [] \<and> list_all (\<lambda>c. \<not> word_char U c \<and> c \<noteq> cp CHR 0x22 \<and> c \<noteq> cp CHR ''%'') w"

text \<open>\<open>re.sub(r"[,!?.:;-]", " ", text)\<close> and \<open>re.sub(r"[\<dots>,!?.:;-]", " ", text)\<close>, with the
  class given as the list of its characters.\<close>

definition sub_class :: "pystr \<Rightarrow> pystr \<Rightarrow> pystr" where
  "sub_class cls text = map (\<lambda>c. if c \<in> set cls then SPACE else c) text"

text \<open>\<open>re.sub(r" +", " ", text)\<close>: every maximal run of spaces becomes one space.\<close>

function sub_spaces :: "pystr \<Rightarrow> pystr" where
  "sub_spaces [] = []"
| "sub_spaces (c # cs) =
     (if c = SPACE then SPACE # sub_spaces (dropWhile (\<lambda>d. d = SPACE) cs)
      else c # sub_spaces cs)"
  by pat_completeness auto

termination
  by (relation "measure length") (auto simp: less_Suc_eq_le length_dropWhile_le)

text \<open>\<open>re.sub(r"\.\.\.", "\<dots>", text)\<close>: from the left, three dots become the glyph U+2026.\<close>

fun sub_dots :: "pystr \<Rightarrow> pystr" where
  "sub_dots (a # b # c # cs) =
     (if a = DOT \<and> b = DOT \<and> c = DOT then ELLIPSIS_CHAR # sub_dots cs
      else a # sub_dots (b # c # cs))"
| "sub_dots cs = cs"

text \<open>\<open>re.sub(r"[!?.:;-]([^ ])", r" \1", text)\<close>: from the left, a mark followed by a
  character other than a space becomes a space, and the character stays; the scan goes on
  after that character.\<close>

fun sub_glued :: "pystr \<Rightarrow> pystr" where
  "sub_glued (a # b # cs) =
     (if a \<in> set (str ''!?.:;-'') \<and> b \<noteq> SPACE then SPACE # b # sub_glued cs
      else a # sub_glued (b # cs))"
| "sub_glued cs = cs"

text \<open>\<open>re.sub(r"\<dots>", "...", text)\<close>\<close>

definition sub_glyph :: "pystr \<Rightarrow> pystr" where
  "sub_glyph text = concat (map (\<lambda>c. if c = ELLIPSIS_CHAR then str ''...'' else [c]) text)"

section \<open>converters/json\_converter.py: texts of a document\<close>

record WordData =
  punctuation :: pystr
  space_after :: bool
  word :: pystr

record TextData =
  title :: pystr
  words' :: "WordData list"

text \<open>One round of the loop of \<open>_build_texts\<close> over \<open>text.words\<close>, on
  \<open>(text_in, text_exp, text_intact)\<close>.\<close>

definition build_step :: "unicode \<Rightarrow> pystr \<times> pystr \<times> pystr \<Rightarrow> WordData \<Rightarrow> pystr \<times> pystr \<times> pystr" where
  "build_step U acc word_data =
     (case acc of (text_in, text_exp, text_intact) \<Rightarrow>
        (let text_intact = text_intact @ word word_data @ punctuation word_data;
             (text_in, text_exp) =
               (if \<not> non_alphanumeric U (word word_data)
                then (text_in @ word word_data,
                      (text_exp @ word word_data)
                        @ (if punctuation word_data = str ''-'' \<and> \<not> space_after word_data
                           then punctuation word_data else []))
                else (text_in, text_exp));
             text_intact = text_intact @ str '' '';
             (text_in, text_exp) =
               (if space_after word_data \<or> punctuation word_data \<noteq> []
                then (text_in @ str '' '', text_exp @ str '' '')
                else (text_in, text_exp))
         in (text_in, text_exp, text_intact)))"

definition build_texts :: "unicode \<Rightarrow> TextData \<Rightarrow> pystr \<times> pystr \<times> pystr" where
  "build_texts U text = foldl (build_step U) ([], [], []) (words' text)"

definition normalize_text_in :: "unicode \<Rightarrow> pystr \<Rightarrow> pystr" where
  "normalize_text_in U text =
     (let text = lower U text;
          text = sub_class (str '',!?.:;-'') text;
          text = sub_spaces text
      in strip text)"

definition normalize_text_exp :: "unicode \<Rightarrow> pystr \<Rightarrow> pystr" where
  "normalize_text_exp U text =
     (let text = lower U text;
          text = sub_dots text;
          text = sub_glued text;
          text = sub_class (ELLIPSIS_CHAR # str '',!?.:;-'') text;
          text = sub_spaces text;
          text = sub_glyph text
      in strip text)"

text \<open>\<open>_load_json\<close> on the document the JSON file holds. (\<open>_validate_equal_len\<close> is
  defined in the class and called nowhere.)\<close>

definition load_json :: "unicode \<Rightarrow> TextData \<Rightarrow> pystr \<times> pystr" where
  "load_json U text =
     (case build_texts U text of (text_in, text_exp, text_intact) \<Rightarrow>
        (normalize_text_in U text_in, normalize_text_exp U text_exp))"

text \<open>The spec's example document.\<close>

definition dog_runs_home :: TextData where
  "dog_runs_home = \<lparr>title = str ''dog'', words' =
     [\<lparr>punctuation = str '''', space_after = True, word = str ''dog''\<rparr>,
      \<lparr>punctuation = str ''.'', space_after = False, word = str ''runs''\<rparr>,
      \<lparr>punctuation = str '''', space_after = False, word = str ''Home''\<rparr>]\<rparr>"

section \<open>parsers/parse\_json2.py: texts of a document\<close>

text \<open>One round of the loop of \<open>JsonToConllConverter._load_json\<close> over \<open>data["words"]\<close>,
  on \<open>(text, text_in, text_exp)\<close>.\<close>

definition load_json_step :: "unicode \<Rightarrow> pystr \<times> pystr \<times> pystr \<Rightarrow> WordData \<Rightarrow> pystr \<times> pystr \<times> pystr" where
  "load_json_step U acc token =
     (case acc of (text, text_in, text_exp) \<Rightarrow>
        (let text = text @ word token @ punctuation token;
             (text_in, text_exp) =
               (if \<not> non_alphanumeric U (word token)
                then (text_in @ word token,
                      (if punctuation token = str ''-'' \<and> \<not> space_after token
                       then text_exp @ word token
                       else text_exp @ (word token @ punctuation token)))
                else (text_in, text_exp));
             text_in = (if space_after token \<or> punctuation token \<noteq> []
                        then text_in @ str '' '' else text_in);
             text_exp = (if space_after token \<or> punctuation token \<noteq> []
                         then text_exp @ str '' '' else text_exp);
             text = text @ str '' ''
         in (text, text_in, text_exp)))"

text \<open>\<open>JsonToConllConverter._load_json\<close>: the texts returned and what is printed to stderr
  when the token counts differ (the counts; the token lists printed after them are left
  out).\<close>

definition load_json_parse_json2 :: "unicode \<Rightarrow> TextData \<Rightarrow> (pystr \<times> pystr) \<times> log_record list" where
  "load_json_parse_json2 U data =
     (case foldl (load_json_step U) ([], [], []) (words' data) of (text, text_in, text_exp) \<Rightarrow>
        (let text_in = sub_class (str '',!?.:;-'') (lower U text_in);
             text_in = sub_spaces text_in;
             text_exp = lower U text_exp;
             text_exp = sub_dots text_exp;
             text_exp = sub_glued text_exp;
             text_exp = sub_class (ELLIPSIS_CHAR # str '',!?.:;-'') text_exp;
             text_exp = sub_spaces text_exp;
             text_exp = sub_glyph text_exp;
             n_in = length (split_on SPACE (strip text_in));
             n_exp = length (split_on SPACE (strip text_exp))
         in ((strip text_in, strip text_exp),
             (if n_in = n_exp then [] else [Stderr_token_counts n_in n_exp]))))"






section \<open>Python strings: numbers and search\<close>

text \<open>\<open>str(n)\<close> for an integer, as an f-string formats it.\<close>

fun digits :: "nat \<Rightarrow> pystr" where
  "digits n = (if n < 10 then [48 + n] else digits (n div 10) @ [48 + n mod 10])"

definition py_str_int :: "int \<Rightarrow> pystr" where
  "py_str_int i = (if i < 0 then cp CHR ''-'' # digits (nat (- i)) else digits (nat i))"

text \<open>\<open>s.find(sub, start)\<close>: the lowest index from \<open>start\<close> on at which \<open>sub\<close> occurs in
  \<open>s\<close>, or -1.\<close>

definition str_find :: "pystr \<Rightarrow> pystr \<Rightarrow> nat \<Rightarrow> int" where
  "str_find s sub start =
     (case find (\<lambda>j. take (length sub) (drop j s) = sub) [start ..< Suc (length s)] of
        None \<Rightarrow> - 1
      | Some j \<Rightarrow> int j)"

definition NEWLINE :: nat where
  "NEWLINE = 10"

section \<open>parsers/tsv\_parser.py: conversion\<close>

text \<open>
  \<open>_calculate_breaks\<close> on what \<open>_parse_transcript\<close> has read: the break after each word,
  0 after the last; \<open>data[-1]\<close> raises IndexError on an empty transcript.
\<close>

definition calculate_breaks :: "(int \<times> int \<times> pystr) list \<Rightarrow> py_error + (pystr \<times> int) list" where
  "calculate_breaks data =
     (let result = map (\<lambda>i. case data ! i of (start, end', w) \<Rightarrow>
                                (w, fst (data ! (i + 1)) - end'))
                     [0 ..< length (slice_to data (- 1))]
      in case index data (- 1) of
           Inl e \<Rightarrow> Inl e
         | Inr last_record \<Rightarrow> Inr (result @ [(snd (snd last_record), 0)]))"

text \<open>
  \<open>_provide_breaks_for_expected\<close>: first the text of the transcript and the dictionary
  from the offset of each word to its break, then the scan over the expected words.
\<close>

definition index_times :: "unicode \<Rightarrow> (pystr \<times> int) list \<Rightarrow> pystr \<times> (nat \<rightharpoonup> int)" where
  "index_times U words_and_breaks =
     foldl (\<lambda>(times_text, times_indexes) (w, break').
              (times_text @ lower U w, times_indexes(length times_text \<mapsto> break')))
       ([], Map.empty) words_and_breaks"

fun match_breaks :: "unicode \<Rightarrow> pystr \<Rightarrow> (nat \<rightharpoonup> int) \<Rightarrow> nat \<Rightarrow> pystr list \<Rightarrow> int list" where
  "match_breaks U times_text times_indexes index' [] = []"
| "match_breaks U times_text times_indexes index' (w # expected_text) =
     (let found_index = str_find times_text (lower U w) index'
      in if found_index < 0 then - 1 # match_breaks U times_text times_indexes index' expected_text
         else (case times_indexes (nat found_index) of
                 Some break' \<Rightarrow>
                   break' # match_breaks U times_text times_indexes (nat found_index) expected_text
               | None \<Rightarrow> - 1 # match_breaks U times_text times_indexes index' expected_text))"

definition provide_breaks_for_expected ::
  "unicode \<Rightarrow> (pystr \<times> int) list \<Rightarrow> pystr list \<Rightarrow> int list" where
  "provide_breaks_for_expected U words_and_breaks expected_text =
     (case index_times U words_and_breaks of (times_text, times_indexes) \<Rightarrow>
        match_breaks U times_text times_indexes 0 expected_text)"

text \<open>
  The parser: the lines of \<open>in.tsv\<close> and of \<open>expected.tsv\<close>, and the directory of
  forced-aligned transcripts, if any, as the function from a text id to what
  \<open>_parse_transcript\<close> reads from that text's file (or the error it raises).
\<close>

record TsvParser =
  in_file :: "pystr list"
  expected_file :: "pystr list"
  fa_transcriptions_directory :: "(pystr \<Rightarrow> py_error + (int \<times> int \<times> pystr) list) option"

text \<open>What a run has done so far: the strings written to the output file, the records
  logged, and the exception that ended it, if any.\<close>

record conversion =
  out_file :: "pystr list"
  logged :: "log_record list"
  raised :: "py_error option"

definition write_line :: "pystr \<Rightarrow> conversion \<Rightarrow> conversion" where
  "write_line s c = c\<lparr>out_file := out_file c @ [s]\<rparr>"

text \<open>The inner loop of \<open>convert\<close>, over \<open>enumerate(zip(in_text.split(" "),
  expected_line.split(" ")))\<close>.\<close>

fun write_tokens ::
  "unicode \<Rightarrow> int list option \<Rightarrow> nat \<Rightarrow> (pystr \<times> pystr) list \<Rightarrow> conversion \<Rightarrow> conversion" where
  "write_tokens U matched i [] c = c"
| "write_tokens U matched i ((in_token, expected_token) # tokens) c =
     (case determine_label in_token (lower U expected_token) of
        Inl e \<Rightarrow> c\<lparr>raised := Some e\<rparr>
      | Inr (label, records) \<Rightarrow>
          (let c = c\<lparr>logged := logged c @ records\<rparr>
           in case matched of
                None \<Rightarrow>
                  write_tokens U matched (i + 1) tokens
                    (write_line (in_token @ [TAB] @ label @ [NEWLINE]) c)
              | Some m \<Rightarrow>
                  (case index m (int i) of
                     Inl e \<Rightarrow> c\<lparr>raised := Some e\<rparr>
                   | Inr t \<Rightarrow>
                       write_tokens U matched (i + 1) tokens
                         (write_line (in_token @ [TAB] @ label @ [TAB] @ py_str_int t @ [NEWLINE])
                            c))))"

text \<open>The body of the outer loop of \<open>convert\<close>, for one pair of lines.\<close>

definition convert_pair ::
  "unicode \<Rightarrow> (pystr \<Rightarrow> py_error + (int \<times> int \<times> pystr) list) option \<Rightarrow> conversion
     \<Rightarrow> pystr \<times> pystr \<Rightarrow> conversion" where
  "convert_pair U fa c lines =
     (let in_line = strip (fst lines);
          expected_line = strip (snd lines)
      in case split_on TAB in_line of
           [wikipunct_text_id, in_text] \<Rightarrow>
             if length (split_on SPACE in_text) \<noteq> length (split_on SPACE expected_line)
             then c\<lparr>logged := logged c @ [Warning_texts_differ]\<rparr>
             else
               (case (case fa of
                        None \<Rightarrow> Inr None
                      | Some parse_transcript \<Rightarrow>
                          (case parse_transcript wikipunct_text_id of
                             Inl e \<Rightarrow> Inl e
                           | Inr data \<Rightarrow>
                               (case calculate_breaks data of
                                  Inl e \<Rightarrow> Inl e
                                | Inr words_and_breaks \<Rightarrow>
                                    Inr (Some (provide_breaks_for_expected U words_and_breaks
                                                 (split_on SPACE expected_line)))))) of
                  Inl e \<Rightarrow> c\<lparr>raised := Some e\<rparr>
                | Inr matched \<Rightarrow>
                    (let c = write_tokens U matched 0
                               (zip (split_on SPACE in_text) (split_on SPACE expected_line)) c
                     in if raised c = None then write_line [NEWLINE] c else c))
         | _ \<Rightarrow> c\<lparr>raised := Some ValueError\<rparr>)"

fun convert_lines ::
  "unicode \<Rightarrow> (pystr \<Rightarrow> py_error + (int \<times> int \<times> pystr) list) option \<Rightarrow> conversion
     \<Rightarrow> (pystr \<times> pystr) list \<Rightarrow> conversion" where
  "convert_lines U fa c [] = c"
| "convert_lines U fa c (lines # rest) =
     (let c = convert_pair U fa c lines
      in if raised c = None then convert_lines U fa c rest else c)"

definition convert :: "unicode \<Rightarrow> TsvParser \<Rightarrow> conversion" where
  "convert U self =
     convert_lines U (fa_transcriptions_directory self)
       \<lparr>out_file = [], logged = [], raised = None\<rparr>
       (zip (in_file self) (expected_file self))"

section \<open>converters/json\_converter.py: writing the TSV files\<close>





section \<open>Facts about slices\<close>

lemma slice_to_minus_one: "slice_to xs (- 1) = butlast xs"
  by (simp add: slice_to_def butlast_conv_take nat_diff_distrib')

lemma slice_to_minus_three: "slice_to xs (- 3) = take (length xs - 3) xs"
  by (simp add: slice_to_def nat_diff_distrib')

lemma slice_from_minus_three: "slice_from xs (- 3) = drop (length xs - 3) xs"
  by (simp add: slice_from_def nat_diff_distrib')

lemma str_index_last: "xs \<noteq> [] \<Longrightarrow> str_index xs (- 1) = Inr [last xs]"
  by (cases xs rule: rev_cases) (simp_all add: str_index_def index_def Let_def)

section \<open>Label determination\<close>

text \<open>
  C1. For all tokens, \<open>_determine_label\<close> (both copies) returns without raising: \<open>B\<close>
  when the tokens are equal; the last character of the expected token when the input token
  is the expected token without its last character; \<open>...\<close> when the input token is the
  expected token without its last three characters and these are \<open>...\<close>; otherwise \<open>B\<close>
  with the mismatch reported (by \<open>logger.error\<close> in tsv\_parser.py, on stderr in
  parse\_tsv.py).
\<close>

theorem determine_label_cases:
  "determine_label i e =
     Inr (if i = e then (str ''B'', [])
          else if i = butlast e then ([last e], [])
          else if 3 \<le> length e \<and> i = take (length e - 3) e \<and> drop (length e - 3) e = str ''...''
            then (str ''...'', [])
          else (str ''B'', [Error_mismatch i e]))
   \<and> determine_label_parse_tsv i e =
     Inr (if i = e then (str ''B'', [])
          else if i = butlast e then ([last e], [])
          else if 3 \<le> length e \<and> i = take (length e - 3) e \<and> drop (length e - 3) e = str ''...''
            then (str ''...'', [])
          else (str ''B'', [Stderr_ERROR i e]))"
proof -
  have three: "drop (length e - 3) e = str ''...'' \<Longrightarrow> 3 \<le> length e"
  proof -
    assume "drop (length e - 3) e = str ''...''"
    then have "length (drop (length e - 3) e) = 3" by (simp add: str_def)
    then show "3 \<le> length e" by simp
  qed
  have nonempty: "i \<noteq> e \<Longrightarrow> i = butlast e \<Longrightarrow> e \<noteq> []" by auto
  show ?thesis
    unfolding determine_label_def determine_label_parse_tsv_def
      slice_to_minus_one slice_to_minus_three slice_from_minus_three
    using three nonempty by (auto simp: str_index_last)
qed

theorem determine_label_examples:
  "determine_label (str ''dog'') (str ''dog'') = Inr (str ''B'', [])
   \<and> determine_label (str ''dog'') (str ''dog.'') = Inr (str ''.'', [])
   \<and> determine_label (str ''dog'') (str ''dog...'') = Inr (str ''...'', [])
   \<and> determine_label (str ''dog'') (str ''cat'') =
       Inr (str ''B'', [Error_mismatch (str ''dog'') (str ''cat'')])"
  using determine_label_cases [of "str ''dog''" "str ''dog''"]
    determine_label_cases [of "str ''dog''" "str ''dog.''"]
    determine_label_cases [of "str ''dog''" "str ''dog...''"]
    determine_label_cases [of "str ''dog''" "str ''cat''"]
  by (simp add: str_def cp_def)




section \<open>The sentence filter of the trainer\<close>

lemma delete_sentences_filter:
  "delete_sentences L data =
     filter (\<lambda>r. \<forall>r' \<in> set data. sentence_id r' = sentence_id r \<longrightarrow> labels r' \<in> set L) data"
  unfolding delete_sentences_def Let_def
proof (rule filter_cong)
  fix x assume "x \<in> set data"
  show "(sentence_id x \<notin> set (map sentence_id (filter (\<lambda>r. labels r \<notin> set L) data))) =
         (\<forall>r'\<in>set data. sentence_id r' = sentence_id x \<longrightarrow> labels r' \<in> set L)"
    by (auto simp: image_iff)
qed simp

lemma Label_list_alphabet:
  "Label_list = map str [''B'', '':'', '';'', '','', ''.'', ''-'', ''...'', ''?'', ''!'']"
  by (simp add: Label_list_def Label_members_def)

text \<open>
  C10. \<open>NERTrainer.load_data\<close> filters each of its two frames by sentence: it returns, in
  their order and unchanged, exactly the rows whose sentence has no row with a label outside
  \<open>Label.list()\<close>, which is \<open>B : ; , . - ... ? !\<close>. So a sentence with one label outside the
  alphabet loses all its rows, and the sentences without such a label keep all of theirs.
\<close>

theorem load_data_sentence_filter:
  "load_data train_data eval_data =
     (filter (\<lambda>r. \<forall>r' \<in> set train_data.
                 sentence_id r' = sentence_id r \<longrightarrow> labels r' \<in> set Label_list) train_data,
      filter (\<lambda>r. \<forall>r' \<in> set eval_data.
                 sentence_id r' = sentence_id r \<longrightarrow> labels r' \<in> set Label_list) eval_data)
   \<and> Label_list = map str [''B'', '':'', '';'', '','', ''.'', ''-'', ''...'', ''?'', ''!'']"
  by (simp add: load_data_def delete_sentences_filter Label_list_alphabet)

theorem load_data_sentence_filter_witness:
  "load_data
     [\<lparr>words = str ''ala'', labels = str ''B'', times' = str ''0'', sentence_id = (0::int)\<rparr>,
      \<lparr>words = str ''ma'', labels = str ''a'', times' = str ''0'', sentence_id = 0\<rparr>,
      \<lparr>words = str ''kota'', labels = str ''.'', times' = str ''0'', sentence_id = 1\<rparr>]
     [\<lparr>words = str ''dom'', labels = str ''...'', times' = str ''0'', sentence_id = (5::int)\<rparr>]
   = ([\<lparr>words = str ''kota'', labels = str ''.'', times' = str ''0'', sentence_id = 1\<rparr>],
      [\<lparr>words = str ''dom'', labels = str ''...'', times' = str ''0'', sentence_id = 5\<rparr>])"
  using load_data_sentence_filter
    [of "[\<lparr>words = str ''ala'', labels = str ''B'', times' = str ''0'', sentence_id = (0::int)\<rparr>,
      \<lparr>words = str ''ma'', labels = str ''a'', times' = str ''0'', sentence_id = 0\<rparr>,
      \<lparr>words = str ''kota'', labels = str ''.'', times' = str ''0'', sentence_id = 1\<rparr>]"
     "[\<lparr>words = str ''dom'', labels = str ''...'', times' = str ''0'', sentence_id = (5::int)\<rparr>]"]
  by (simp add: str_def cp_def Label_list_def Label_members_def)

section \<open>The chunker: rows written earlier do not matter\<close>

lemma split_step_onto: "split_step self sid (onto out st) t = onto out (split_step self sid st t)"
  by (simp add: split_step_def flush_window_def extend_splitted_data_def onto_def Let_def)

lemma foldl_split_step_onto:
  "foldl (split_step self sid) (onto out st) ex = onto out (foldl (split_step self sid) st ex)"
  by (induction ex arbitrary: st) (simp_all add: split_step_onto)

lemma split_example_onto: "split_example self out sid ex = out @ split_example self [] sid ex"
proof -
  let ?st0 = "\<lparr>splitted_data = [], words_with_labels = [], words_in_example = 0,
                 tokenized_len = 0, token_lens = [], chunk_id = 0\<rparr> :: 'a splitting"
  have "\<lparr>splitted_data = out, words_with_labels = [], words_in_example = 0,
                 tokenized_len = 0, token_lens = [], chunk_id = 0\<rparr> = onto out ?st0"
    by (simp add: onto_def)
  then show ?thesis
    unfolding split_example_def Let_def
    by (simp add: foldl_split_step_onto) (simp add: onto_def extend_splitted_data_def)
qed

section \<open>The chunker: the window's bookkeeping\<close>

lemma py_int_offset:
  assumes "0 \<le> s" "s \<le> 1"
  shows "0 \<le> py_int (of_int (int n) * s)" "py_int (of_int (int n) * s) \<le> int n"
proof -
  have a: "0 \<le> of_int (int n) * s" using assms by simp
  then show "0 \<le> py_int (of_int (int n) * s)" by (simp add: py_int_def)
  have "of_int (int n) * s \<le> of_int (int n)" using assms
    by (simp add: mult_left_le)
  then have "\<lfloor>of_int (int n) * s\<rfloor> \<le> int n" by (simp add: floor_le_iff)
  with a show "py_int (of_int (int n) * s) \<le> int n" by (simp add: py_int_def)
qed

lemma sum_list_drop: "sum_list (xs::int list) - sum_list (take n xs) = sum_list (drop n xs)"
proof -
  have "sum_list (take n xs @ drop n xs) = sum_list (take n xs) + sum_list (drop n xs)"
    by (simp only: sum_list_append)
  then show ?thesis by simp
qed

lemma window_ok_flush:
  assumes "window_ok st" "0 \<le> stride self" "stride self \<le> 1"
  shows "window_ok (flush_window self sid st)"
proof -
  let ?n = "length (words_with_labels st)"
  let ?o = "py_int (of_int (int ?n) * stride self)"
  have o: "0 \<le> ?o" "?o \<le> int ?n" using py_int_offset[OF assms(2,3)] by auto
  show ?thesis using assms(1) o
    by (auto simp: window_ok_def flush_window_def extend_splitted_data_def Let_def slice_from_def
        slice_to_def sum_list_drop list_all_iff dest: in_set_dropD)
qed

lemma window_ok_step:
  assumes "window_ok st" "0 \<le> stride self" "stride self \<le> 1"
  shows "window_ok (split_step self sid st t)"
  using assms window_ok_flush[OF assms, of sid]
  by (auto simp: split_step_def Let_def window_ok_def)

lemma extend_tag:
  "splitted_data (extend_splitted_data sid st) =
     splitted_data st @ map (tag sid (chunk_id st)) (words_with_labels st)"
  by (simp add: extend_splitted_data_def tag_def case_prod_unfold)

lemma untag_tag [simp]: "untag (tag k c t) = t" "sid_of (tag k c t) = k"
  by (simp_all add: untag_def tag_def sid_of_def)

lemma map_untag_tag [simp]: "map (untag \<circ> tag k c) ts = ts" "map untag (map (tag k c) ts) = ts"
  by (simp_all add: comp_def)

lemma chunks_of_alt: "chunks_of out k = map untag (filter (\<lambda>x. sid_of x = k) out)"
  by (simp add: chunks_of_def untag_def sid_of_def case_prod_unfold)

lemma chunk_alt: "chunk out k c = map untag (filter (\<lambda>x. snd (snd (snd x)) = (k, c)) out)"
  by (simp add: chunk_def untag_def case_prod_unfold)

lemma flush_fields:
  "splitted_data (flush_window self sid st) =
     splitted_data st @ map (tag sid (chunk_id st)) (words_with_labels st)"
  "chunk_id (flush_window self sid st) = chunk_id st + 1"
  "words_with_labels (flush_window self sid st) =
     slice_from (words_with_labels st) (py_int (of_int (words_in_example st) * stride self))"
  by (simp_all add: flush_window_def Let_def extend_tag) (simp_all add: extend_splitted_data_def)

lemma step_fields:
  "splitted_data (split_step self sid st t) =
     (if tokenized_len st + int (length (tokenize self (fst t))) \<ge> max_seq_len self - 1
      then splitted_data (flush_window self sid st) else splitted_data st)"
  "chunk_id (split_step self sid st t) =
     (if tokenized_len st + int (length (tokenize self (fst t))) \<ge> max_seq_len self - 1
      then chunk_id st + 1 else chunk_id st)"
  "words_with_labels (split_step self sid st t) =
     (if tokenized_len st + int (length (tokenize self (fst t))) \<ge> max_seq_len self - 1
      then words_with_labels (flush_window self sid st) else words_with_labels st) @ [t]"
  by (simp_all add: split_step_def Let_def flush_fields)

section \<open>The chunker: rows carry the id of their sentence\<close>

lemma step_sid:
  assumes "\<forall>x \<in> set (splitted_data st). sid_of x = sid"
  shows "\<forall>x \<in> set (splitted_data (split_step self sid st t)). sid_of x = sid"
  using assms by (auto simp: step_fields flush_fields)

lemma foldl_sid:
  assumes "\<forall>x \<in> set (splitted_data st). sid_of x = sid"
  shows "\<forall>x \<in> set (splitted_data (foldl (split_step self sid) st ex)). sid_of x = sid"
  using assms
proof (induction ex arbitrary: st)
  case Nil then show ?case by simp
next
  case (Cons t ex)
  show ?case using Cons.IH[OF step_sid[OF Cons.prems]] by simp
qed

lemma split_example_sid: "\<forall>x \<in> set (split_example self [] sid ex). sid_of x = sid"
proof -
  let ?st0 = "\<lparr>splitted_data = [], words_with_labels = [], words_in_example = 0,
                 tokenized_len = 0, token_lens = [], chunk_id = 0\<rparr> :: 'a splitting"
  have "\<forall>x \<in> set (splitted_data (foldl (split_step self sid) ?st0 ex)). sid_of x = sid"
    by (rule foldl_sid) simp
  then show ?thesis
    by (auto simp: split_example_def Let_def extend_tag)
qed

section \<open>The chunker: disjoint chunks\<close>

lemma disjoint_step:
  assumes "window_ok st" "stride self = 1"
  shows "map untag (splitted_data (split_step self sid st t)) @ words_with_labels (split_step self sid st t)
       = map untag (splitted_data st) @ words_with_labels st @ [t]"
  using assms
  by (auto simp: step_fields flush_fields window_ok_def py_int_def slice_from_def)

lemma window_ok_foldl:
  assumes "window_ok st" "0 \<le> stride self" "stride self \<le> 1"
  shows "window_ok (foldl (split_step self sid) st ex)"
  using assms(1)
proof (induction ex arbitrary: st)
  case Nil then show ?case by simp
next
  case (Cons t ex)
  show ?case using Cons.IH[OF window_ok_step[OF Cons.prems assms(2,3)]] by simp
qed

lemma disjoint_foldl:
  assumes "window_ok st" "stride self = 1"
  shows "map untag (splitted_data (foldl (split_step self sid) st ex))
           @ words_with_labels (foldl (split_step self sid) st ex)
       = map untag (splitted_data st) @ words_with_labels st @ ex"
  using assms(1)
proof (induction ex arbitrary: st)
  case Nil then show ?case by simp
next
  case (Cons t ex)
  have ok: "window_ok (split_step self sid st t)"
    using window_ok_step[OF Cons.prems] assms(2) by simp
  show ?case using Cons.IH[OF ok] disjoint_step[OF Cons.prems assms(2)] by simp
qed

lemma window_ok_init:
  "window_ok \<lparr>splitted_data = out, words_with_labels = [], words_in_example = 0,
                 tokenized_len = 0, token_lens = [], chunk_id = 0\<rparr>"
  by (simp add: window_ok_def)

lemma window_ok_nonneg: "window_ok st \<Longrightarrow> 0 \<le> tokenized_len st"
  by (auto simp: window_ok_def list_all_iff intro: sum_list_nonneg)

lemma split_example_disjoint:
  assumes "stride self = 1"
  shows "map untag (split_example self [] sid ex) = ex"
proof -
  let ?st0 = "\<lparr>splitted_data = [], words_with_labels = [], words_in_example = 0,
                 tokenized_len = 0, token_lens = [], chunk_id = 0\<rparr> :: 'a splitting"
  let ?st = "foldl (split_step self sid) ?st0 ex"
  have ok: "window_ok ?st" by (rule window_ok_foldl[OF window_ok_init]) (simp_all add: assms)
  have "map untag (splitted_data ?st) @ words_with_labels ?st = ex"
    using disjoint_foldl[OF window_ok_init[of "[]"] assms, of sid ex] by simp
  then show ?thesis using window_ok_nonneg[OF ok]
    by (simp add: split_example_def Let_def extend_tag)
qed

section \<open>The chunker: a sentence under the budget\<close>

lemma noflush_foldl:
  assumes "splitted_data st = []" "chunk_id st = 0" "0 \<le> tokenized_len st"
    "tokenized_len st + sum_list (map (\<lambda>t. int (length (tokenize self (fst t)))) ex) < max_seq_len self - 1"
  shows "splitted_data (foldl (split_step self sid) st ex) = []
       \<and> chunk_id (foldl (split_step self sid) st ex) = 0
       \<and> words_with_labels (foldl (split_step self sid) st ex) = words_with_labels st @ ex
       \<and> 0 \<le> tokenized_len (foldl (split_step self sid) st ex)"
  using assms
proof (induction ex arbitrary: st)
  case Nil then show ?case by simp
next
  case (Cons t ex)
  let ?n = "int (length (tokenize self (fst t)))"
  have nn: "0 \<le> sum_list (map (\<lambda>t. int (length (tokenize self (fst t)))) ex)"
    by (rule sum_list_nonneg) auto
  with Cons.prems have nf: "\<not> tokenized_len st + ?n \<ge> max_seq_len self - 1" by simp
  let ?st = "split_step self sid st t"
  have f: "splitted_data ?st = []" "chunk_id ?st = 0" "words_with_labels ?st = words_with_labels st @ [t]"
    "tokenized_len ?st = tokenized_len st + ?n"
    using nf Cons.prems by (simp_all add: split_step_def Let_def)
  have "tokenized_len ?st + sum_list (map (\<lambda>t. int (length (tokenize self (fst t)))) ex) < max_seq_len self - 1"
    using Cons.prems f by simp
  from Cons.IH[OF f(1) f(2) _ this] f Cons.prems show ?case by simp
qed

lemma split_example_noflush:
  assumes "sum_list (map (\<lambda>t. int (length (tokenize self (fst t)))) ex) < max_seq_len self - 1"
  shows "split_example self [] sid ex = map (tag sid 0) ex"
proof -
  let ?st0 = "\<lparr>splitted_data = [], words_with_labels = [], words_in_example = 0,
                 tokenized_len = 0, token_lens = [], chunk_id = 0\<rparr> :: 'a splitting"
  have "splitted_data (foldl (split_step self sid) ?st0 ex) = []
       \<and> chunk_id (foldl (split_step self sid) ?st0 ex) = 0
       \<and> words_with_labels (foldl (split_step self sid) ?st0 ex) = words_with_labels ?st0 @ ex
       \<and> 0 \<le> tokenized_len (foldl (split_step self sid) ?st0 ex)"
    by (rule noflush_foldl) (simp_all add: assms)
  then show ?thesis by (simp add: split_example_def Let_def extend_tag)
qed

section \<open>The chunker: from one sentence to the frame\<close>

lemma foldl_split_example:
  "foldl (\<lambda>out (sid, example). split_example self out sid (f example)) acc gs
     = acc @ concat (map (\<lambda>(sid, example). split_example self [] sid (f example)) gs)"
proof (induction gs arbitrary: acc)
  case Nil then show ?case by simp
next
  case (Cons g gs)
  obtain sid ex where g: "g = (sid, ex)" by (cases g)
  show ?case using split_example_onto[of self acc sid "f ex"]
    by (simp add: g Cons.IH)
qed

lemma filter_concat_keys:
  assumes "distinct ks" "\<And>k'. \<forall>x \<in> set (F k'). sid_of x = k'"
  shows "filter (\<lambda>x. sid_of x = k) (concat (map F ks)) = (if k \<in> set ks then F k else [])"
  using assms(1)
proof (induction ks)
  case Nil then show ?case by simp
next
  case (Cons a ks)
  have all: "filter (\<lambda>x. sid_of x = a) (F a) = F a" using assms(2)[of a] by (simp add: filter_id_conv)
  have none: "k \<noteq> a \<Longrightarrow> filter (\<lambda>x. sid_of x = k) (F a) = []" using assms(2)[of a]
    by (auto simp: filter_empty_conv)
  show ?case using Cons all none by auto
qed

lemma split_example_empty: "split_example self [] sid [] = []"
  by (simp add: split_example_def Let_def extend_splitted_data_def)

lemma rows_of_sentence:
  "filter (\<lambda>x. sid_of x = k) (split_long_examples self data)
     = split_example self [] k (map row_token (filter (\<lambda>r. sentence_id r = k) data))"
proof -
  let ?F = "\<lambda>k. split_example self [] k (map row_token (filter (\<lambda>r. sentence_id r = k) data))"
  let ?ks = "sorted_list_of_set (set (map sentence_id data))"
  have "split_long_examples self data = concat (map ?F ?ks)"
    by (simp add: split_long_examples_def groupby_sentence_id_def foldl_split_example comp_def)
  moreover have "filter (\<lambda>x. sid_of x = k) (concat (map ?F ?ks)) = (if k \<in> set ?ks then ?F k else [])"
    by (rule filter_concat_keys) (simp_all add: split_example_sid)
  moreover have "k \<notin> set ?ks \<Longrightarrow> filter (\<lambda>r. sentence_id r = k) data = []"
    by (auto simp: filter_empty_conv)
  ultimately show ?thesis by (auto simp: split_example_empty)
qed

text \<open>
  C2. With stride 1.0 and any budget, for every sentence id \<open>k\<close> the output rows of
  sentence \<open>k\<close>, in the order written and without their chunk ids, are the rows of the
  sentence in the input, in order: nothing is dropped or written twice. And (for any stride)
  a sentence whose subword lengths add up to less than \<open>max_seq_len - 1\<close>, so that no word
  reaches the flush threshold, is written whole as the one chunk 0 by the trailing flush.
\<close>

theorem split_long_examples_partition:
  "(stride self = 1 \<longrightarrow>
      chunks_of (split_long_examples self data) k
        = map row_token (filter (\<lambda>r. sentence_id r = k) data))
   \<and> (sum_list (map (\<lambda>r. int (length (tokenize self (words r))))
          (filter (\<lambda>r. sentence_id r = k) data)) < max_seq_len self - 1 \<longrightarrow>
      filter (\<lambda>(w, l, s, i). fst i = k) (split_long_examples self data)
        = map (\<lambda>r. (words r, labels r, times' r, k, 0)) (filter (\<lambda>r. sentence_id r = k) data))"
proof -
  let ?ex = "map row_token (filter (\<lambda>r. sentence_id r = k) data)"
  have sum: "sum_list (map (\<lambda>t. int (length (tokenize self (fst t)))) ?ex)
     = sum_list (map (\<lambda>r. int (length (tokenize self (words r)))) (filter (\<lambda>r. sentence_id r = k) data))"
    by (simp add: comp_def row_token_def)
  have f: "filter (\<lambda>(w, l, s, i). fst i = k) (split_long_examples self data)
      = filter (\<lambda>x. sid_of x = k) (split_long_examples self data)"
    by (simp add: sid_of_def case_prod_unfold)
  have t: "map (tag k 0) ?ex = map (\<lambda>r. (words r, labels r, times' r, k, 0)) (filter (\<lambda>r. sentence_id r = k) data)"
    by (simp add: tag_def row_token_def)
  have a: "stride self = 1 \<Longrightarrow> chunks_of (split_long_examples self data) k = ?ex"
    using split_example_disjoint[of self k ?ex] by (simp only: chunks_of_alt rows_of_sentence)
  have b: "filter (\<lambda>(w, l, s, i). fst i = k) (split_long_examples self data)
        = map (\<lambda>r. (words r, labels r, times' r, k, 0)) (filter (\<lambda>r. sentence_id r = k) data)"
    if "sum_list (map (\<lambda>r. int (length (tokenize self (words r))))
          (filter (\<lambda>r. sentence_id r = k) data)) < max_seq_len self - 1"
    using split_example_noflush[of self ?ex k] that
    by (simp only: f rows_of_sentence sum t)
  from a b show ?thesis by blast
qed

theorem split_long_examples_partition_witness:
  "stride example_splitter = 1
   \<and> chunks_of (split_long_examples example_splitter example_frame) 7
       = [(str ''ab'', str ''B'', str ''0''), (str ''cd'', str '','', str ''0''),
          (str ''e'', str ''.'', str ''0'')]
   \<and> sum_list (map (\<lambda>r. int (length (tokenize example_splitter (words r))))
          (filter (\<lambda>r. sentence_id r = 3) example_frame)) < max_seq_len example_splitter - 1
   \<and> filter (\<lambda>(w, l, s, i). fst i = 3) (split_long_examples example_splitter example_frame)
       = [(str ''x'', str ''B'', str ''0'', 3, 0)]"
  using split_long_examples_partition [of example_splitter example_frame 7]
    split_long_examples_partition [of example_splitter example_frame 3]
  by (simp add: example_splitter_def example_frame_def row_token_def str_def)

section \<open>The chunker: consecutive chunks\<close>
















section \<open>The dataset splitter\<close>









lemma run_five_sentences:
  "run first_sampler 0 five_sentences
     = Inr ((take 5 five_sentences, [], drop 5 five_sentences), 2)"
  by code_simp

section \<open>Document routing\<close>

lemma foldl_route:
  "foldl (route train_names test_names) (a, b, c) paths =
     (a @ filter (\<lambda>p. stem p \<in> set train_names) paths,
      b @ filter (\<lambda>p. stem p \<notin> set train_names \<and> stem p \<in> set test_names) paths,
      c @ filter (\<lambda>p. stem p \<notin> set train_names \<and> stem p \<notin> set test_names) paths)"
  by (induction paths arbitrary: a b c) (simp_all add: route_def)

lemma find_stem:
  "find (\<lambda>path. i = stem path) paths = Some p \<Longrightarrow> p \<in> set paths \<and> stem p = i"
  by (induction paths) (auto split: if_splits)

lemma find_stem_None:
  "find (\<lambda>path. i = stem path) paths = None \<longleftrightarrow> i \<notin> stem ` set paths"
  by (induction paths) auto

lemma find_stem_distinct:
  assumes "distinct (map stem paths)" "p \<in> set paths"
  shows "find (\<lambda>path. stem p = stem path) paths = Some p"
  using assms by (induction paths) (auto simp: image_iff)

lemma map_stem_sort_paths:
  "map stem (sort_paths paths is) = filter (\<lambda>i. i \<in> stem ` set paths) is"
proof (induction "is")
  case Nil then show ?case by (simp add: sort_paths_def)
next
  case (Cons i "is")
  then have IH: "map stem (sort_paths paths is) = filter (\<lambda>i. i \<in> stem ` set paths) is" .
  have split: "sort_paths paths (i # is) =
      (case find (\<lambda>path. i = stem path) paths of None \<Rightarrow> [] | Some path \<Rightarrow> [path]) @ sort_paths paths is"
    by (simp add: sort_paths_def)
  show ?case
  proof (cases "find (\<lambda>path. i = stem path) paths")
    case None
    then have "i \<notin> stem ` set paths" by (simp add: find_stem_None)
    then show ?thesis using IH by (simp add: split None)
  next
    case (Some p)
    with find_stem[OF Some] show ?thesis using IH by (auto simp: split)
  qed
qed

lemma set_sort_paths:
  assumes "distinct (map stem paths)"
  shows "set (sort_paths paths is) = {p \<in> set paths. stem p \<in> set is}"
proof -
  have "p \<in> set (sort_paths paths is) \<longleftrightarrow> p \<in> set paths \<and> stem p \<in> set is" for p
  proof
    assume "p \<in> set (sort_paths paths is)"
    then obtain i where "i \<in> set is" "find (\<lambda>path. i = stem path) paths = Some p"
      by (auto simp: sort_paths_def split: option.splits)
    then show "p \<in> set paths \<and> stem p \<in> set is" using find_stem by blast
  next
    assume "p \<in> set paths \<and> stem p \<in> set is"
    then show "p \<in> set (sort_paths paths is)"
      using find_stem_distinct[OF assms, of p]
      by (auto simp: sort_paths_def intro!: bexI[of _ "stem p"])
  qed
  then show ?thesis by blast
qed

lemma distinct_sort_paths:
  assumes "distinct is"
  shows "distinct (sort_paths paths is)"
proof -
  have "distinct (map stem (sort_paths paths is))"
    using assms by (simp add: map_stem_sort_paths)
  then show ?thesis by (simp add: distinct_map)
qed

lemma mset_sort_paths:
  assumes "distinct (map stem paths)" "distinct is" "\<forall>p \<in> set paths. stem p \<in> set is"
  shows "mset (sort_paths paths is) = mset paths"
proof -
  have "distinct paths" using assms(1) by (simp add: distinct_map)
  moreover have "set (sort_paths paths is) = set paths"
    using assms(3) by (auto simp: set_sort_paths[OF assms(1)])
  ultimately show ?thesis
    using distinct_sort_paths[OF assms(2)] by (simp add: set_eq_iff_mset_eq_distinct)
qed

lemma mset_three_filters:
  "mset (filter T c) + mset (filter (\<lambda>p. \<not> T p \<and> E p) c)
     + mset (filter (\<lambda>p. \<not> T p \<and> \<not> E p) c) = mset c"
  by (induction c) auto

text \<open>
  C8. Let each manifest list an id at most once and let the candidate documents have
  different ids. Then \<open>_get_json_paths\<close> returns three buckets that partition the
  candidates (every candidate is in exactly one bucket): train holds the candidates whose
  id is in the train manifest, test those whose id is in the test manifest and not in the
  train manifest, rest the others. The ids of the train bucket are the train manifest's
  ids that have a candidate, in the manifest's line order, and likewise for test. The rest
  bucket is what \<open>random.shuffle\<close> makes, in the state \<open>random.seed(0)\<close> sets, of the other
  candidates in the order found: a permutation of them that is the same on every run.
\<close>

theorem get_json_paths_partition:
  assumes "parse_wikipunct_text_ids train_file = Inr train_names"
    and "parse_wikipunct_text_ids test_file = Inr test_names"
    and "distinct train_names" and "distinct test_names"
    and "distinct (map stem (concat data_paths))"
    and "shuffle_ok shuffle"
  shows "\<exists>train test rest.
      get_json_paths seed shuffle train_file test_file data_paths = Inr (train, test, rest)
      \<and> mset train + mset test + mset rest = mset (concat data_paths)
      \<and> set train = {p \<in> set (concat data_paths). stem p \<in> set train_names}
      \<and> set test = {p \<in> set (concat data_paths).
                       stem p \<notin> set train_names \<and> stem p \<in> set test_names}
      \<and> set rest = {p \<in> set (concat data_paths).
                       stem p \<notin> set train_names \<and> stem p \<notin> set test_names}
      \<and> map stem train = filter (\<lambda>i. i \<in> stem ` set (concat data_paths)) train_names
      \<and> map stem test
          = filter (\<lambda>i. i \<in> stem ` set (concat data_paths) \<and> i \<notin> set train_names) test_names
      \<and> rest = shuffle (seed 0)
          (filter (\<lambda>p. stem p \<notin> set train_names \<and> stem p \<notin> set test_names)
             (concat data_paths))"
proof -
  let ?c = "concat data_paths"
  let ?T = "\<lambda>p. stem p \<in> set train_names"
  let ?E = "\<lambda>p. stem p \<notin> set train_names \<and> stem p \<in> set test_names"
  let ?R = "\<lambda>p. stem p \<notin> set train_names \<and> stem p \<notin> set test_names"
  let ?train = "sort_paths (filter ?T ?c) train_names"
  let ?test = "sort_paths (filter ?E ?c) test_names"
  let ?rest = "shuffle (seed 0) (filter ?R ?c)"
  have res: "get_json_paths seed shuffle train_file test_file data_paths = Inr (?train, ?test, ?rest)"
    using foldl_route[of train_names test_names "[]" "[]" "[]" ?c]
    by (simp add: get_json_paths_def assms(1,2))
  have dT: "distinct (map stem (filter ?T ?c))" and dE: "distinct (map stem (filter ?E ?c))"
    using assms(5) by (simp_all add: distinct_map_filter)
  have mT: "mset ?train = mset (filter ?T ?c)"
    by (rule mset_sort_paths[OF dT assms(3)]) simp
  have mE: "mset ?test = mset (filter ?E ?c)"
    by (rule mset_sort_paths[OF dE assms(4)]) simp
  have mR: "mset ?rest = mset (filter ?R ?c)"
    using assms(6) by (simp add: shuffle_ok_def)
  have part: "mset (filter ?T ?c) + mset (filter ?E ?c) + mset (filter ?R ?c) = mset ?c"
    by (rule mset_three_filters)
  have m: "mset ?train + mset ?test + mset ?rest = mset ?c"
    by (simp only: mT mE mR part)
  have sT: "set ?train = {p \<in> set ?c. ?T p}"
    using arg_cong[OF mT, of set_mset] by auto
  have sE: "set ?test = {p \<in> set ?c. ?E p}"
    using arg_cong[OF mE, of set_mset] by auto
  have sR: "set ?rest = {p \<in> set ?c. ?R p}"
    using arg_cong[OF mR, of set_mset] by auto
  have oT: "map stem ?train = filter (\<lambda>i. i \<in> stem ` set ?c) train_names"
    unfolding map_stem_sort_paths by (rule filter_cong) auto
  have oE: "map stem ?test = filter (\<lambda>i. i \<in> stem ` set ?c \<and> i \<notin> set train_names) test_names"
    unfolding map_stem_sort_paths by (rule filter_cong) auto
  have "get_json_paths seed shuffle train_file test_file data_paths = Inr (?train, ?test, ?rest)
      \<and> mset ?train + mset ?test + mset ?rest = mset ?c
      \<and> set ?train = {p \<in> set ?c. ?T p} \<and> set ?test = {p \<in> set ?c. ?E p}
      \<and> set ?rest = {p \<in> set ?c. ?R p}
      \<and> map stem ?train = filter (\<lambda>i. i \<in> stem ` set ?c) train_names
      \<and> map stem ?test = filter (\<lambda>i. i \<in> stem ` set ?c \<and> i \<notin> set train_names) test_names
      \<and> ?rest = shuffle (seed 0) (filter ?R ?c)"
    by (intro conjI res m sT sE sR oT oE refl)
  then show ?thesis by (intro exI)
qed

lemma manifests_parsed:
  "parse_wikipunct_text_ids train_manifest = Inr [str ''b'', str ''a'']"
  "parse_wikipunct_text_ids test_manifest = Inr [str ''c'', str ''a'']"
  by (simp_all add: train_manifest_def test_manifest_def strip_def isspace_def whitespace_def
      str_def cp_def TAB_def)

lemma rev_shuffle_ok: "shuffle_ok (\<lambda>g. rev)"
  by (simp add: shuffle_ok_def)

theorem get_json_paths_partition_witness:
  "parse_wikipunct_text_ids train_manifest = Inr [str ''b'', str ''a'']
   \<and> parse_wikipunct_text_ids test_manifest = Inr [str ''c'', str ''a'']
   \<and> distinct [str ''b'', str ''a''] \<and> distinct [str ''c'', str ''a'']
   \<and> distinct (map stem (concat two_directories))
   \<and> shuffle_ok (\<lambda>g :: int. rev :: json_path list \<Rightarrow> json_path list)
   \<and> (\<exists>train test rest.
      get_json_paths (\<lambda>n. n) (\<lambda>g. rev) train_manifest test_manifest two_directories
        = Inr (train, test, rest)
      \<and> mset train + mset test + mset rest = mset (concat two_directories)
      \<and> map stem train = [str ''b'', str ''a'']
      \<and> map stem test = [str ''c'']
      \<and> map stem rest = [str ''d''])"
proof -
  have d: "distinct [str ''b'', str ''a'']" "distinct [str ''c'', str ''a'']"
    "distinct (map stem (concat two_directories))"
    by (simp_all add: two_directories_def str_def cp_def)
  from get_json_paths_partition [OF manifests_parsed d rev_shuffle_ok, of "\<lambda>n. n"]
  obtain train test rest where
    r: "get_json_paths (\<lambda>n. n) (\<lambda>g. rev) train_manifest test_manifest two_directories
        = Inr (train, test, rest)"
    "mset train + mset test + mset rest = mset (concat two_directories)"
    "map stem train = filter (\<lambda>i. i \<in> stem ` set (concat two_directories)) [str ''b'', str ''a'']"
    "map stem test = filter (\<lambda>i. i \<in> stem ` set (concat two_directories)
        \<and> i \<notin> set [str ''b'', str ''a'']) [str ''c'', str ''a'']"
    "rest = rev (filter (\<lambda>p. stem p \<notin> set [str ''b'', str ''a''] \<and> stem p \<notin> set [str ''c'', str ''a''])
        (concat two_directories))"
    by blast
  have "map stem train = [str ''b'', str ''a'']" "map stem test = [str ''c'']"
    "map stem rest = [str ''d'']"
    using r(3,4,5) by (simp_all add: two_directories_def str_def cp_def)
  with r(1,2) have "\<exists>train test rest.
      get_json_paths (\<lambda>n. n) (\<lambda>g. rev) train_manifest test_manifest two_directories
        = Inr (train, test, rest)
      \<and> mset train + mset test + mset rest = mset (concat two_directories)
      \<and> map stem train = [str ''b'', str ''a'']
      \<and> map stem test = [str ''c'']
      \<and> map stem rest = [str ''d'']"
    by (intro exI conjI)
  then show ?thesis
    by (intro conjI manifests_parsed d rev_shuffle_ok)
qed

section \<open>The normalization of texts\<close>

lemmas eval_defs = build_texts_def build_step_def non_alphanumeric_def normalize_text_in_def
  normalize_text_exp_def load_json_def lower_def ascii_def sub_class_def sub_glyph_def
  strip_def isspace_def whitespace_def str_def cp_def SPACE_def DOT_def ELLIPSIS_CHAR_def Let_def
  load_json_parse_json2_def load_json_step_def

lemma dog_runs_home_built: "build_texts ascii dog_runs_home = (str ''dog runs Home'', str ''dog runs Home'', str ''dog runs. Home '')"
  by (simp add: dog_runs_home_def eval_defs)

lemma dog_runs_home_loaded: "load_json ascii dog_runs_home = (str ''dog runs home'', str ''dog runs home'')"
  by (simp add: dog_runs_home_def eval_defs)






























text \<open>
  C6 (as stated, refuted). For the spec's document of three tokens the expected text is
  not \<open>dog runs . home\<close>: the period is not kept as a token.
\<close>

theorem end_to_end_counterexample:
  "snd (load_json ascii dog_runs_home) \<noteq> str ''dog runs . home''
   \<and> length (split_on SPACE (snd (load_json ascii dog_runs_home))) = 3
   \<and> length (split_on SPACE (str ''dog runs . home'')) = 4"
  by (simp add: dog_runs_home_loaded) (simp add: str_def cp_def SPACE_def)

text \<open>
  C6 (amended). For the document \<open>dog\<close> (space after), \<open>runs\<close> with punctuation \<open>.\<close>, and
  \<open>Home\<close>, the text builder makes the intact text \<open>dog runs. Home \<close>; after normalization
  the input text is \<open>dog runs home\<close> and the expected text is \<open>dog runs home\<close> as well (the
  builder leaves the period out of the expected text and the normalization would turn it
  into a space).
\<close>

theorem end_to_end:
  "snd (snd (build_texts ascii dog_runs_home)) = str ''dog runs. Home ''
   \<and> load_json ascii dog_runs_home = (str ''dog runs home'', str ''dog runs home'')"
  by (simp add: dog_runs_home_built dog_runs_home_loaded)

section \<open>Token counts that differ\<close>



lemma glyph_converted:
  "convert ascii \<lparr>in_file = [str ''x'' @ [TAB] @ str ''a'' @ [ELLIPSIS_CHAR] @ str ''b'' @ [NEWLINE]],
                  expected_file = [str ''a b'' @ [NEWLINE]],
                  fa_transcriptions_directory = None\<rparr>
     = \<lparr>out_file = [], logged = [Warning_texts_differ], raised = None\<rparr>"
  by (simp add: convert_def convert_pair_def strip_def isspace_def whitespace_def str_def cp_def
      TAB_def SPACE_def NEWLINE_def ELLIPSIS_CHAR_def)

lemma dog_converted:
  "convert ascii \<lparr>in_file = [str ''x'' @ [TAB] @ str ''dog runs home'' @ [NEWLINE]],
                  expected_file = [str ''Dog, runs home...'' @ [NEWLINE]],
                  fa_transcriptions_directory = None\<rparr>
     = \<lparr>out_file = [str ''dog'' @ [TAB] @ str '','' @ [NEWLINE],
                     str ''runs'' @ [TAB] @ str ''B'' @ [NEWLINE],
                     str ''home'' @ [TAB] @ str ''...'' @ [NEWLINE], [NEWLINE]],
         logged = [], raised = None\<rparr>"
  by (simp add: convert_def convert_pair_def strip_def isspace_def whitespace_def str_def cp_def
      TAB_def SPACE_def NEWLINE_def lower_def ascii_def determine_label_def slice_to_def
      slice_from_def str_index_def index_def write_line_def Let_def)





end
